theory Spec2Isabelle
  imports Complex_Main "HOL-Library.Product_Lexorder"
begin

section \<open>Green scheduling simulator: the data model\<close>

text \<open>
  Python floats are modelled as \<^typ>\<open>real\<close>: the arithmetic of the program is read as
  exact arithmetic, rounding and NaN are outside the model. \<open>Optional[float]\<close> is
  \<^typ>\<open>real option\<close>.
\<close>

subsection \<open>config.py\<close>

definition BASE_POWER_WATTS :: real where
  "BASE_POWER_WATTS = 5"

definition MAX_POWER_WATTS :: real where
  "MAX_POWER_WATTS = 15"

definition EMISSION_FACTOR_KG_CO2_PER_KWH :: real where
  "EMISSION_FACTOR_KG_CO2_PER_KWH = 73 / 100"

definition POWER_COST_PER_KWH :: real where
  "POWER_COST_PER_KWH = 8"

definition ALGORITHMS :: "string list" where
  "ALGORITHMS = [''FCFS'', ''SJF'', ''RoundRobin'', ''PriorityBased'', ''EnergyOptimized'']"

definition TIME_QUANTUM_MS :: int where
  "TIME_QUANTUM_MS = 100"

definition SIMULATION_TIME :: real where
  "SIMULATION_TIME = 60"

subsection \<open>scheduler.py: TaskPriority and Task\<close>

datatype TaskPriority = HIGH | MEDIUM | LOW

text \<open>The \<open>.value\<close> of the enum members.\<close>

fun priority_value :: "TaskPriority \<Rightarrow> int" where
  "priority_value HIGH = 1"
| "priority_value MEDIUM = 2"
| "priority_value LOW = 3"

text \<open>
  The dataclass fields of \<open>Task\<close>. The attribute \<open>created_at\<close>, set from the wall clock in
  \<open>__post_init__\<close>, is no dataclass field: it takes no part in the generated \<open>__eq__\<close> and
  nothing reads it, so it is left out.
\<close>

record Task =
  task_id :: string
  duration :: real
  priority :: TaskPriority
  arrival_time :: real
  start_time :: "real option"
  end_time :: "real option"
  cpu_requirement :: real
  memory_requirement :: real

definition get_wait_time :: "Task \<Rightarrow> real" where
  "get_wait_time t =
     (case start_time t of Some s \<Rightarrow> s - arrival_time t | None \<Rightarrow> 0)"

definition get_turnaround_time :: "Task \<Rightarrow> real" where
  "get_turnaround_time t =
     (case end_time t of Some e \<Rightarrow> e - arrival_time t | None \<Rightarrow> 0)"

definition get_energy_consumption :: "Task \<Rightarrow> real \<Rightarrow> real" where
  "get_energy_consumption t power_watts =
     (let energy_joules = power_watts * duration t;
          energy_kwh = energy_joules / (3600 * 1000)
      in energy_kwh)"

subsection \<open>energy_monitor.py: EnergyMonitor\<close>

text \<open>
  One entry of \<open>self.readings\<close>: the dict with the keys \<open>timestamp\<close>, \<open>cpu_usage\<close>,
  \<open>memory_usage\<close> and \<open>power_watts\<close>. A \<open>datetime\<close> is a number of seconds, so that the
  \<open>total_seconds()\<close> of a difference of two of them is their difference.
\<close>

record reading =
  timestamp :: real
  cpu_usage :: real
  memory_usage :: real
  power_watts :: real

text \<open>
  The attributes of an \<open>EnergyMonitor\<close>. The three cached totals carry the prefix
  \<open>monitor_\<close> (the metrics record below has a key \<open>total_energy_kwh\<close> of its own);
  \<open>self.start_time\<close>, a wall-clock stamp nothing reads, is left out.
\<close>

record EnergyMonitor =
  readings :: "reading list"
  monitor_total_energy_kwh :: real
  monitor_total_co2_kg :: real
  monitor_total_cost_inr :: real

definition EnergyMonitor_init :: EnergyMonitor where
  "EnergyMonitor_init =
     \<lparr>readings = [], monitor_total_energy_kwh = 0, monitor_total_co2_kg = 0,
      monitor_total_cost_inr = 0\<rparr>"

definition calculate_power_watts :: "real \<Rightarrow> real" where
  "calculate_power_watts cpu_usage_percent =
     BASE_POWER_WATTS + (MAX_POWER_WATTS - BASE_POWER_WATTS) * (cpu_usage_percent / 100)"

definition calculate_co2_emissions :: "real \<Rightarrow> real" where
  "calculate_co2_emissions energy_kwh = energy_kwh * EMISSION_FACTOR_KG_CO2_PER_KWH"

definition calculate_energy_cost :: "real \<Rightarrow> real" where
  "calculate_energy_cost energy_kwh = energy_kwh * POWER_COST_PER_KWH"

text \<open>
  \<open>record_reading\<close> stamps the reading with \<open>datetime.now()\<close>; the model takes that
  instant as the argument \<open>now\<close>.
\<close>

definition record_reading :: "EnergyMonitor \<Rightarrow> real \<Rightarrow> real \<Rightarrow> real \<Rightarrow> real \<Rightarrow> EnergyMonitor" where
  "record_reading m now cpu mem watts =
     m\<lparr>readings := readings m @
        [\<lparr>timestamp = now, cpu_usage = cpu, memory_usage = mem, power_watts = watts\<rparr>]\<rparr>"

text \<open>
  The body of the \<open>for i in range(len(self.readings) - 1)\<close> loop, and the loop as a fold
  over the indices. \<open>len - 1\<close> is computed in \<^typ>\<open>int\<close>, as Python does: on an empty log
  it is \<open>-1\<close> and the range is empty.
\<close>

definition energy_joules_at :: "reading list \<Rightarrow> nat \<Rightarrow> real" where
  "energy_joules_at rs i =
     (let current = rs ! i;
          next_reading = rs ! (i + 1);
          time_delta = timestamp next_reading - timestamp current
      in power_watts current * time_delta)"

definition total_joules_loop :: "reading list \<Rightarrow> real" where
  "total_joules_loop rs =
     fold (\<lambda>i total_joules. total_joules + energy_joules_at rs i)
       [0 ..< nat (int (length rs) - 1)] 0"

text \<open>The method returns the total and caches it in the monitor.\<close>

definition get_total_energy_kwh :: "EnergyMonitor \<Rightarrow> real \<times> EnergyMonitor" where
  "get_total_energy_kwh m =
     (let total = total_joules_loop (readings m) / 3600000
      in (total, m\<lparr>monitor_total_energy_kwh := total\<rparr>))"

definition get_total_co2_kg :: "EnergyMonitor \<Rightarrow> real \<times> EnergyMonitor" where
  "get_total_co2_kg m =
     (let (energy_kwh, m1) = get_total_energy_kwh m;
          co2 = calculate_co2_emissions energy_kwh
      in (co2, m1\<lparr>monitor_total_co2_kg := co2\<rparr>))"

definition get_total_cost_inr :: "EnergyMonitor \<Rightarrow> real \<times> EnergyMonitor" where
  "get_total_cost_inr m =
     (let (energy_kwh, m1) = get_total_energy_kwh m;
          cost = calculate_energy_cost energy_kwh
      in (cost, m1\<lparr>monitor_total_cost_inr := cost\<rparr>))"

subsection \<open>Task objects and the store\<close>

text \<open>
  A \<open>Task\<close> is a mutable object and the lists of the program hold references to it: the
  same object can stand in several lists, and \<open>execute_task\<close> writes into it. The model
  keeps the objects in a store, a function from addresses to the object's fields; a task
  list is a list of addresses. (An address no list mentions holds a value nothing reads.)
\<close>

type_synonym ref = nat

type_synonym heap = "ref \<Rightarrow> Task"

text \<open>
  The constructor call \<open>Task(task_id=.., duration=.., priority=.., arrival_time=..,
  cpu_requirement=..)\<close>: the outcome fields start unset, the memory takes its default.
\<close>

definition new_Task :: "string \<Rightarrow> real \<Rightarrow> TaskPriority \<Rightarrow> real \<Rightarrow> real \<Rightarrow> Task" where
  "new_Task tid dur prio arrival cpu =
     \<lparr>task_id = tid, duration = dur, priority = prio, arrival_time = arrival,
      start_time = None, end_time = None, cpu_requirement = cpu,
      memory_requirement = 256\<rparr>"

text \<open>The store that holds the tasks of a list at the addresses 0, 1, 2, ...\<close>

definition heap_of :: "Task list \<Rightarrow> heap" where
  "heap_of ts = (\<lambda>r. if r < length ts then ts ! r else new_Task [] 0 MEDIUM 0 50)"

subsection \<open>Python's min and sorted\<close>

text \<open>
  The loop of the built-in \<open>min(iterable, key=..)\<close>: the first item is the candidate, and a
  later item replaces it only when its key is strictly less. Tuples of keys compare
  lexicographically, which is the order of \<^typ>\<open>'a \<times> 'b\<close> here.
\<close>

fun min_loop :: "('a \<Rightarrow> 'k::linorder) \<Rightarrow> 'a \<Rightarrow> 'a list \<Rightarrow> 'a" where
  "min_loop key best [] = best"
| "min_loop key best (x # xs) = min_loop key (if key x < key best then x else best) xs"

text \<open>
  \<open>sorted(tasks, key=..)\<close> is a stable sort, as \<^const>\<open>sort_key\<close> is.
\<close>

subsection \<open>scheduler.py: TaskQueue.get_next_task\<close>

text \<open>The queue is its list \<open>self.tasks\<close>; the result is \<open>None\<close> or a task of the list.\<close>

definition get_next_task :: "string \<Rightarrow> heap \<Rightarrow> ref list \<Rightarrow> ref option" where
  "get_next_task algorithm h tasks =
     (case tasks of
        [] \<Rightarrow> None
      | t # ts \<Rightarrow>
          if algorithm = ''FCFS'' then Some t
          else if algorithm = ''SJF'' then Some (min_loop (\<lambda>r. duration (h r)) t ts)
          else if algorithm = ''PriorityBased'' then
            Some (min_loop (\<lambda>r. (priority_value (priority (h r)), arrival_time (h r))) t ts)
          else if algorithm = ''EnergyOptimized'' then
            Some (min_loop (\<lambda>r. cpu_requirement (h r)) t ts)
          else Some t)"

subsection \<open>algorithm.py: the scheduling policies\<close>

text \<open>
  The five subclasses of \<open>SchedulingAlgorithm\<close>; a \<open>RoundRobinScheduler\<close> carries its
  \<open>time_quantum\<close>. (The base class, whose \<open>schedule\<close> raises \<open>NotImplementedError\<close>, is
  never instantiated.)
\<close>

datatype scheduler_class =
    FCFSScheduler
  | SJFScheduler
  | PriorityScheduler
  | RoundRobinScheduler int
  | EnergyOptimizedScheduler

fun schedule :: "scheduler_class \<Rightarrow> heap \<Rightarrow> ref list \<Rightarrow> ref option" where
  "schedule FCFSScheduler h tasks = (case tasks of [] \<Rightarrow> None | t # ts \<Rightarrow> Some t)"
| "schedule SJFScheduler h tasks =
     (case tasks of [] \<Rightarrow> None | t # ts \<Rightarrow> Some (min_loop (\<lambda>r. duration (h r)) t ts))"
| "schedule PriorityScheduler h tasks =
     (case tasks of
        [] \<Rightarrow> None
      | t # ts \<Rightarrow>
          Some (min_loop (\<lambda>r. (priority_value (priority (h r)), arrival_time (h r))) t ts))"
| "schedule (RoundRobinScheduler time_quantum) h tasks =
     (case tasks of [] \<Rightarrow> None | t # ts \<Rightarrow> Some t)"
| "schedule EnergyOptimizedScheduler h tasks =
     (case tasks of
        [] \<Rightarrow> None
      | t # ts \<Rightarrow>
          (let sorted_tasks =
             sort_key (\<lambda>r. (cpu_requirement (h r), priority_value (priority (h r)),
                            arrival_time (h r))) tasks
           in Some (hd sorted_tasks)))"

definition apply_dvfs :: "real \<Rightarrow> real \<Rightarrow> real" where
  "apply_dvfs current_power_watts usage =
     (if usage < 30 then current_power_watts * (6 / 10)
      else if usage < 60 then current_power_watts * (8 / 10)
      else current_power_watts)"

subsection \<open>What a selection is measured against\<close>

text \<open>
  Position \<open>i\<close> of a list holds its first minimum under a key: no position has a smaller
  key, and every earlier position has a strictly greater one.
\<close>

definition first_minimum :: "('a \<Rightarrow> 'k::linorder) \<Rightarrow> 'a list \<Rightarrow> nat \<Rightarrow> bool" where
  "first_minimum key xs i \<longleftrightarrow>
     i < length xs \<and> (\<forall>j<length xs. key (xs ! i) \<le> key (xs ! j)) \<and>
     (\<forall>j<i. key (xs ! i) < key (xs ! j))"

text \<open>
  The lexicographic order on the key \<open>(cpu_requirement, priority_rank, arrival_time)\<close>,
  written out.
\<close>

definition energy_key_le :: "Task \<Rightarrow> Task \<Rightarrow> bool" where
  "energy_key_le a b \<longleftrightarrow>
     cpu_requirement a < cpu_requirement b \<or>
     (cpu_requirement a = cpu_requirement b \<and>
      (priority_value (priority a) < priority_value (priority b) \<or>
       (priority_value (priority a) = priority_value (priority b) \<and>
        arrival_time a \<le> arrival_time b)))"

definition energy_key_less :: "Task \<Rightarrow> Task \<Rightarrow> bool" where
  "energy_key_less a b \<longleftrightarrow>
     cpu_requirement a < cpu_requirement b \<or>
     (cpu_requirement a = cpu_requirement b \<and>
      (priority_value (priority a) < priority_value (priority b) \<or>
       (priority_value (priority a) = priority_value (priority b) \<and>
        arrival_time a < arrival_time b)))"

text \<open>
  What the start times of a run are measured against: the sum of the durations of the
  first \<open>k\<close> tasks of a list of executed tasks, which is where the time cursor of a run
  stands once it has executed them.
\<close>

definition time_cursor :: "heap \<Rightarrow> ref list \<Rightarrow> nat \<Rightarrow> real" where
  "time_cursor h executed k = sum_list (map (\<lambda>r. duration (h r)) (take k executed))"

text \<open>The three tasks of the specification's scenario, and two tasks of equal duration.\<close>

definition scenario_heap :: heap where
  "scenario_heap =
     heap_of [new_Task ''A'' 2 LOW 0 80, new_Task ''B'' 1 HIGH 0 20,
              new_Task ''C'' 3 MEDIUM 0 50]"

definition late_first_heap :: heap where
  "late_first_heap =
     heap_of [new_Task ''late'' 1 MEDIUM 5 50, new_Task ''early'' 1 MEDIUM 0 50]"

text \<open>Three tasks that arrive at seconds 0, 1 and 3, each two seconds long.\<close>

definition staggered_heap :: heap where
  "staggered_heap =
     heap_of [new_Task ''s0'' 2 MEDIUM 0 50, new_Task ''s1'' 2 MEDIUM 1 50,
              new_Task ''s2'' 2 MEDIUM 3 50]"

text \<open>Two tasks of equal CPU requirement, the one of lower priority first.\<close>

definition same_cpu_heap :: heap where
  "same_cpu_heap =
     heap_of [new_Task ''low'' 1 LOW 0 50, new_Task ''high'' 1 HIGH 0 50]"

subsection \<open>algorithm.py: SchedulingAlgorithm\<close>

text \<open>
  The state every scheduler object carries. \<open>cls\<close> is the object's class, which decides
  what \<open>schedule\<close> does; \<open>executed_tasks\<close> holds references to the executed Task objects.
\<close>

record SchedulingAlgorithm =
  cls :: scheduler_class
  name :: string
  executed_tasks :: "ref list"
  total_energy :: real
  total_wait_time :: real
  total_turnaround_time :: real

definition SchedulingAlgorithm_init :: "scheduler_class \<Rightarrow> string \<Rightarrow> SchedulingAlgorithm" where
  "SchedulingAlgorithm_init c n =
     \<lparr>cls = c, name = n, executed_tasks = [], total_energy = 0, total_wait_time = 0,
      total_turnaround_time = 0\<rparr>"

text \<open>
  \<open>execute_task\<close> writes the two outcome fields into the Task object and adds to the
  scheduler's totals; the model returns the scheduler and the store as they are after it.
\<close>

definition execute_task ::
  "SchedulingAlgorithm \<Rightarrow> heap \<Rightarrow> ref \<Rightarrow> real \<Rightarrow> real \<Rightarrow> SchedulingAlgorithm \<times> heap" where
  "execute_task s h task current_time watts =
     (let h1 = h(task := (h task)\<lparr>start_time := Some current_time\<rparr>);
          h2 = h1(task := (h1 task)\<lparr>end_time := Some (current_time + duration (h1 task))\<rparr>);
          energy_kwh = get_energy_consumption (h2 task) watts
      in (s\<lparr>executed_tasks := executed_tasks s @ [task],
            total_energy := total_energy s + energy_kwh,
            total_wait_time := total_wait_time s + get_wait_time (h2 task),
            total_turnaround_time := total_turnaround_time s + get_turnaround_time (h2 task)\<rparr>,
          h2))"

definition get_average_wait_time :: "SchedulingAlgorithm \<Rightarrow> real" where
  "get_average_wait_time s =
     (if executed_tasks s \<noteq> [] then total_wait_time s / real (length (executed_tasks s))
      else 0)"

definition get_average_turnaround_time :: "SchedulingAlgorithm \<Rightarrow> real" where
  "get_average_turnaround_time s =
     (if executed_tasks s \<noteq> [] then total_turnaround_time s / real (length (executed_tasks s))
      else 0)"

text \<open>The dict \<open>get_metrics\<close> returns, a field for each key.\<close>

record metrics =
  algorithm :: string
  total_energy_kwh :: real
  tasks_executed :: nat
  avg_wait_time :: real
  avg_turnaround_time :: real
  co2_emissions_kg :: real

definition get_metrics :: "SchedulingAlgorithm \<Rightarrow> metrics" where
  "get_metrics s =
     \<lparr>algorithm = name s,
      total_energy_kwh = total_energy s,
      tasks_executed = length (executed_tasks s),
      avg_wait_time = get_average_wait_time s,
      avg_turnaround_time = get_average_turnaround_time s,
      co2_emissions_kg = total_energy s * EMISSION_FACTOR_KG_CO2_PER_KWH\<rparr>"

subsection \<open>simulation.py: Simulator\<close>

datatype py_error = KeyError | ValueError

text \<open>
  \<open>remaining_tasks.remove(next_task)\<close> deletes the first item that is the object itself or
  equals it; the \<open>__eq__\<close> of the dataclass compares all fields. With no such item it
  raises \<open>ValueError\<close>.
\<close>

fun list_remove :: "heap \<Rightarrow> ref \<Rightarrow> ref list \<Rightarrow> ref list option" where
  "list_remove h x [] = None"
| "list_remove h x (y # ys) =
     (if y = x \<or> h y = h x then Some ys
      else (case list_remove h x ys of None \<Rightarrow> None | Some zs \<Rightarrow> Some (y # zs)))"

record Simulator =
  tasks :: "ref list"
  schedulers :: "string \<rightharpoonup> SchedulingAlgorithm"
  monitors :: "string \<rightharpoonup> EnergyMonitor"
  results :: "string \<rightharpoonup> metrics"

definition Simulator_init :: Simulator where
  "Simulator_init =
     \<lparr>tasks = [], schedulers = Map.empty, monitors = Map.empty, results = Map.empty\<rparr>"

definition initialize_schedulers :: "Simulator \<Rightarrow> Simulator" where
  "initialize_schedulers sim =
     sim\<lparr>schedulers :=
       [''FCFS'' \<mapsto> SchedulingAlgorithm_init FCFSScheduler ''FCFS'',
        ''SJF'' \<mapsto> SchedulingAlgorithm_init SJFScheduler ''SJF'',
        ''PriorityBased'' \<mapsto> SchedulingAlgorithm_init PriorityScheduler ''PriorityBased'',
        ''RoundRobin'' \<mapsto>
           SchedulingAlgorithm_init (RoundRobinScheduler TIME_QUANTUM_MS) ''RoundRobin'',
        ''EnergyOptimized'' \<mapsto>
           SchedulingAlgorithm_init EnergyOptimizedScheduler ''EnergyOptimized'']\<rparr>"

lemma list_remove_shorter:
  "list_remove h x ys = Some zs \<Longrightarrow> length zs < length ys"
  by (induction ys arbitrary: zs) (auto split: if_splits option.splits)

lemma idle_step_measure:
  assumes "t < SIMULATION_TIME"
  shows "nat \<lceil>(SIMULATION_TIME - (t + 1 / 10)) * 10\<rceil> < nat \<lceil>(SIMULATION_TIME - t) * 10\<rceil>"
proof -
  have pos: "0 < (SIMULATION_TIME - t) * 10" using assms by simp
  have "(SIMULATION_TIME - (t + 1 / 10)) * 10 = (SIMULATION_TIME - t) * 10 - 1"
    by (simp add: algebra_simps)
  then have "\<lceil>(SIMULATION_TIME - (t + 1 / 10)) * 10\<rceil> = \<lceil>(SIMULATION_TIME - t) * 10\<rceil> - 1"
    by (simp only: ceiling_diff_one)
  moreover have "0 < \<lceil>(SIMULATION_TIME - t) * 10\<rceil>" using pos by simp
  ultimately show ?thesis by simp
qed

text \<open>
  The \<open>while\<close> loop of \<open>run_simulation_for_algorithm\<close>, over the scheduler, the monitor, the
  store, the list \<open>remaining_tasks\<close> and \<open>current_time\<close>. \<open>clock n\<close> is the wall-clock
  instant at which the monitor takes its reading number \<open>n\<close>. A Task object is truthy, so
  \<open>if next_task\<close> tests for \<open>None\<close>.
\<close>

function simulation_loop ::
  "(nat \<Rightarrow> real) \<Rightarrow> SchedulingAlgorithm \<Rightarrow> EnergyMonitor \<Rightarrow> heap \<Rightarrow> ref list \<Rightarrow> real \<Rightarrow>
   py_error + SchedulingAlgorithm \<times> EnergyMonitor \<times> heap" where
  "simulation_loop clock scheduler monitor h remaining_tasks current_time =
     (if remaining_tasks \<noteq> [] \<and> current_time < SIMULATION_TIME then
        (case schedule (cls scheduler) h remaining_tasks of
           Some next_task \<Rightarrow>
             (let watts = calculate_power_watts (cpu_requirement (h next_task));
                  (scheduler', h') = execute_task scheduler h next_task current_time watts;
                  monitor' = record_reading monitor (clock (length (readings monitor)))
                               (cpu_requirement (h' next_task)) 30 watts
              in (case list_remove h' next_task remaining_tasks of
                    None \<Rightarrow> Inl ValueError
                  | Some remaining' \<Rightarrow>
                      simulation_loop clock scheduler' monitor' h' remaining'
                        (current_time + duration (h' next_task))))
         | None \<Rightarrow>
             simulation_loop clock scheduler monitor h remaining_tasks (current_time + 1 / 10))
      else Inr (scheduler, monitor, h))"
  by pat_completeness auto
termination
proof (relation "measures [\<lambda>(clock, s, m, h, remaining, t). length remaining,
                           \<lambda>(clock, s, m, h, remaining, t). nat \<lceil>(SIMULATION_TIME - t) * 10\<rceil>]",
       goal_cases)
  case 1
  show ?case by simp
next
  case (2 clock scheduler monitor h remaining_tasks current_time)
  then have "current_time < SIMULATION_TIME" by simp
  from idle_step_measure [OF this] show ?case by simp
next
  case 3
  then show ?case by (simp add: list_remove_shorter)
qed

declare simulation_loop.simps [simp del]

text \<open>
  \<open>self.schedulers[algorithm_name]\<close> raises \<open>KeyError\<close> on a name that is no key. The
  method returns the metrics; the model returns with them the simulator and the store as
  the call leaves them.
\<close>

definition run_simulation_for_algorithm ::
  "(nat \<Rightarrow> real) \<Rightarrow> Simulator \<Rightarrow> heap \<Rightarrow> string \<Rightarrow> ref list \<Rightarrow>
   py_error + metrics \<times> Simulator \<times> heap" where
  "run_simulation_for_algorithm clock sim h algorithm_name task_list =
     (case schedulers sim algorithm_name of
        None \<Rightarrow> Inl KeyError
      | Some scheduler \<Rightarrow>
          (case simulation_loop clock scheduler EnergyMonitor_init h task_list 0 of
             Inl e \<Rightarrow> Inl e
           | Inr (scheduler', monitor', h') \<Rightarrow>
               Inr (get_metrics scheduler',
                    sim\<lparr>schedulers := (schedulers sim)(algorithm_name \<mapsto> scheduler'),
                        monitors := (monitors sim)(algorithm_name \<mapsto> monitor')\<rparr>,
                    h')))"

text \<open>
  The \<open>for algorithm_name in config.ALGORITHMS\<close> loop of \<open>run_all_simulations\<close>: every run
  is given the same list \<open>self.tasks\<close> and the store as the run before left it.
\<close>

fun run_all_loop ::
  "(string \<Rightarrow> nat \<Rightarrow> real) \<Rightarrow> Simulator \<Rightarrow> heap \<Rightarrow> string list \<Rightarrow> py_error + Simulator \<times> heap" where
  "run_all_loop clock sim h [] = Inr (sim, h)"
| "run_all_loop clock sim h (algorithm_name # rest) =
     (case run_simulation_for_algorithm (clock algorithm_name) sim h algorithm_name (tasks sim) of
        Inl e \<Rightarrow> Inl e
      | Inr (m, sim', h') \<Rightarrow>
          run_all_loop clock (sim'\<lparr>results := (results sim')(algorithm_name \<mapsto> m)\<rparr>) h' rest)"

definition run_all_simulations ::
  "(string \<Rightarrow> nat \<Rightarrow> real) \<Rightarrow> Simulator \<Rightarrow> heap \<Rightarrow>
   py_error + (string \<rightharpoonup> metrics) \<times> Simulator \<times> heap" where
  "run_all_simulations clock sim h =
     (case run_all_loop clock (initialize_schedulers sim) h ALGORITHMS of
        Inl e \<Rightarrow> Inl e
      | Inr (sim', h') \<Rightarrow> Inr (results sim', sim', h'))"

section \<open>Task accessors on a task that never ran\<close>

text \<open>
  C10. A task whose \<open>start_time\<close> is unset has wait time 0, and a task whose \<open>end_time\<close> is
  unset has turnaround time 0. Both accessors are total functions of the task: there is no
  branch that raises.
\<close>

theorem unset_times_give_zero:
  "(start_time t = None \<longrightarrow> get_wait_time t = 0) \<and>
   (end_time t = None \<longrightarrow> get_turnaround_time t = 0)"
  by (simp add: get_wait_time_def get_turnaround_time_def)

theorem unset_times_give_zero_witness:
  "start_time \<lparr>task_id = ''a1'', duration = 2, priority = LOW, arrival_time = 7,
       start_time = None, end_time = None, cpu_requirement = 80,
       memory_requirement = 256\<rparr> = None \<and>
   get_wait_time \<lparr>task_id = ''a1'', duration = 2, priority = LOW, arrival_time = 7,
       start_time = None, end_time = None, cpu_requirement = 80,
       memory_requirement = 256\<rparr> = 0 \<and>
   get_turnaround_time \<lparr>task_id = ''a1'', duration = 2, priority = LOW, arrival_time = 7,
       start_time = None, end_time = None, cpu_requirement = 80,
       memory_requirement = 256\<rparr> = 0"
  using unset_times_give_zero
    [of "\<lparr>task_id = ''a1'', duration = 2, priority = LOW, arrival_time = 7,
       start_time = None, end_time = None, cpu_requirement = 80,
       memory_requirement = 256\<rparr>"]
  by simp

section \<open>The energy model\<close>

lemma fold_add_upt:
  "fold (\<lambda>i (acc::real). acc + f i) [a ..< b] s = s + (\<Sum>i = a ..< b. f i)"
proof (induction b arbitrary: s)
  case 0
  show ?case by simp
next
  case (Suc b)
  show ?case
  proof (cases "a \<le> b")
    case True
    then show ?thesis using Suc.IH [of s] by (simp add: add.assoc)
  next
    case False
    then show ?thesis by simp
  qed
qed

text \<open>
  C7. The total energy of a log is the sum, over the consecutive pairs of readings, of the
  power of the earlier reading times the seconds between the two, divided by 3,600,000;
  the power of the later reading does not enter (left endpoint). A log of fewer than two
  readings gives exactly zero.
\<close>

theorem total_energy_left_endpoint:
  "fst (get_total_energy_kwh m) =
     (\<Sum>i = 0 ..< length (readings m) - 1.
        power_watts (readings m ! i) *
        (timestamp (readings m ! (i + 1)) - timestamp (readings m ! i))) / 3600000 \<and>
   (length (readings m) < 2 \<longrightarrow> fst (get_total_energy_kwh m) = 0)"
proof -
  have n: "nat (int (length (readings m)) - 1) = length (readings m) - 1"
    by simp
  have eq: "fst (get_total_energy_kwh m) =
     (\<Sum>i = 0 ..< length (readings m) - 1.
        power_watts (readings m ! i) *
        (timestamp (readings m ! (i + 1)) - timestamp (readings m ! i))) / 3600000"
    unfolding get_total_energy_kwh_def total_joules_loop_def n
    by (simp add: fold_add_upt energy_joules_at_def Let_def)
  have "length (readings m) < 2 \<Longrightarrow> length (readings m) - 1 = 0"
    by simp
  then have "length (readings m) < 2 \<Longrightarrow> fst (get_total_energy_kwh m) = 0"
    using eq by simp
  with eq show ?thesis by simp
qed

theorem total_energy_left_endpoint_witness:
  "fst (get_total_energy_kwh
      (record_reading (record_reading (record_reading EnergyMonitor_init 0 50 30 10)
         2 80 30 13) 5 20 30 7)) = (10 * 2 + 13 * 3) / 3600000 \<and>
   length (readings (record_reading EnergyMonitor_init 0 50 30 10)) < 2 \<and>
   fst (get_total_energy_kwh (record_reading EnergyMonitor_init 0 50 30 10)) = 0"
  using total_energy_left_endpoint
      [of "record_reading (record_reading (record_reading EnergyMonitor_init 0 50 30 10)
         2 80 30 13) 5 20 30 7"]
    total_energy_left_endpoint [of "record_reading EnergyMonitor_init 0 50 30 10"]
  by (simp add: record_reading_def EnergyMonitor_init_def numeral_2_eq_2)

text \<open>
  C8. The power model is \<open>base + (max - base) * (usage / 100)\<close>: it gives the base power at
  usage 0 and the maximum power at usage 100, and it is monotone on the usages between 0
  and 100.
\<close>

theorem power_model_linear_monotone:
  "calculate_power_watts 0 = BASE_POWER_WATTS \<and>
   calculate_power_watts 100 = MAX_POWER_WATTS \<and>
   calculate_power_watts u =
     BASE_POWER_WATTS + (MAX_POWER_WATTS - BASE_POWER_WATTS) * (u / 100) \<and>
   (0 \<le> u1 \<and> u1 \<le> u2 \<and> u2 \<le> 100 \<longrightarrow>
      calculate_power_watts u1 \<le> calculate_power_watts u2)"
  by (simp add: calculate_power_watts_def BASE_POWER_WATTS_def MAX_POWER_WATTS_def)

theorem power_model_linear_monotone_witness:
  "calculate_power_watts 0 = 5 \<and> calculate_power_watts 100 = 15 \<and>
   calculate_power_watts 50 = 10 \<and>
   (0::real) \<le> 20 \<and> (20::real) \<le> 50 \<and> (50::real) \<le> 100 \<and>
   calculate_power_watts 20 \<le> calculate_power_watts 50"
  using power_model_linear_monotone [of 50 20 50]
  by (simp add: BASE_POWER_WATTS_def MAX_POWER_WATTS_def)

section \<open>Selection\<close>

subsection \<open>min and sorted select the first minimum\<close>

lemma min_loop_first_minimum:
  "first_minimum key pre i \<Longrightarrow> best = pre ! i \<Longrightarrow>
   \<exists>i'. min_loop key best xs = (pre @ xs) ! i' \<and> first_minimum key (pre @ xs) i'"
proof (induction xs arbitrary: pre i best)
  case Nil
  then show ?case by auto
next
  case (Cons x xs)
  let ?pre = "pre @ [x]"
  show ?case
  proof (cases "key x < key best")
    case True
    have fm: "first_minimum key ?pre (length pre)"
      using Cons.prems True
      by (auto simp: first_minimum_def nth_append less_Suc_eq intro: less_le_trans dest: spec)
    from Cons.IH [OF fm, of x] True show ?thesis by simp
  next
    case False
    have fm: "first_minimum key ?pre i"
      using Cons.prems False
      by (auto simp: first_minimum_def nth_append less_Suc_eq)
    have "best = ?pre ! i" using Cons.prems by (simp add: first_minimum_def nth_append)
    from Cons.IH [OF fm this] False show ?thesis by simp
  qed
qed

lemma min_loop_selects:
  "\<exists>i. min_loop key t ts = (t # ts) ! i \<and> first_minimum key (t # ts) i"
  using min_loop_first_minimum [of key "[t]" 0 t ts]
  by (simp add: first_minimum_def)

lemma hd_insort_key:
  "hd (insort_key key x ys) = (if ys = [] \<or> key x \<le> key (hd ys) then x else hd ys)"
  by (cases ys) auto

lemma sort_key_selects:
  "xs \<noteq> [] \<Longrightarrow> \<exists>i. hd (sort_key key xs) = xs ! i \<and> first_minimum key xs i"
proof (induction xs)
  case Nil
  then show ?case by simp
next
  case (Cons x xs)
  show ?case
  proof (cases "xs = []")
    case True
    then show ?thesis by (auto simp: first_minimum_def)
  next
    case False
    from Cons.IH [OF False] obtain i where
      i: "hd (sort_key key xs) = xs ! i" "first_minimum key xs i" by blast
    have ne: "sort_key key xs \<noteq> []" using False by (metis length_sort list.size(3) length_0_conv)
    show ?thesis
    proof (cases "key x \<le> key (xs ! i)")
      case True
      have "first_minimum key (x # xs) 0"
        using i(2) True by (auto simp: first_minimum_def nth_Cons split: nat.splits intro: order_trans)
      moreover have "hd (sort_key key (x # xs)) = x"
        using True i(1) ne by (simp add: hd_insort_key)
      ultimately show ?thesis by (intro exI [of _ 0]) simp
    next
      case F: False
      have "first_minimum key (x # xs) (Suc i)"
        using i(2) F by (auto simp: first_minimum_def nth_Cons less_Suc_eq_0_disj split: nat.splits)
      moreover have "hd (sort_key key (x # xs)) = xs ! i"
        using F i(1) ne by (simp add: hd_insort_key)
      ultimately show ?thesis by (intro exI [of _ "Suc i"]) simp
    qed
  qed
qed

subsection \<open>Shortest job first\<close>

text \<open>
  C2, as the code has it. On a non-empty list, \<open>SJFScheduler.schedule\<close> and
  \<open>get_next_task('SJF')\<close> return the same task: one of minimum duration, the first of them
  in list order (every earlier task is strictly longer). The arrival time is not part of
  the key; when the list is in ascending order of arrival, as a generated batch is, the
  first task of minimum duration is also one of earliest arrival among them.
\<close>

theorem sjf_selects_first_shortest:
  assumes "ready \<noteq> []"
  shows "\<exists>i<length ready.
     schedule SJFScheduler h ready = Some (ready ! i) \<and>
     get_next_task ''SJF'' h ready = Some (ready ! i) \<and>
     (\<forall>j<length ready. duration (h (ready ! i)) \<le> duration (h (ready ! j))) \<and>
     (\<forall>j<i. duration (h (ready ! i)) < duration (h (ready ! j))) \<and>
     (sorted (map (\<lambda>r. arrival_time (h r)) ready) \<longrightarrow>
        (\<forall>j<length ready. duration (h (ready ! j)) = duration (h (ready ! i)) \<longrightarrow>
           arrival_time (h (ready ! i)) \<le> arrival_time (h (ready ! j))))"
proof -
  from assms obtain t ts where ready: "ready = t # ts" by (cases ready) auto
  obtain i where sel: "min_loop (\<lambda>r. duration (h r)) t ts = ready ! i"
    and fm: "first_minimum (\<lambda>r. duration (h r)) ready i"
    using min_loop_selects [of "\<lambda>r. duration (h r)" t ts] ready by blast
  have i: "i < length ready"
    and le: "\<forall>j<length ready. duration (h (ready ! i)) \<le> duration (h (ready ! j))"
    and less: "\<forall>j<i. duration (h (ready ! i)) < duration (h (ready ! j))"
    using fm by (simp_all add: first_minimum_def)
  have arr: "arrival_time (h (ready ! i)) \<le> arrival_time (h (ready ! j))"
    if srt: "sorted (map (\<lambda>r. arrival_time (h r)) ready)" and j: "j < length ready"
      and eq: "duration (h (ready ! j)) = duration (h (ready ! i))" for j
  proof -
    have "\<not> j < i" using less eq by auto
    then have "i \<le> j" by simp
    with srt j have "map (\<lambda>r. arrival_time (h r)) ready ! i \<le> map (\<lambda>r. arrival_time (h r)) ready ! j"
      by (simp add: sorted_iff_nth_mono del: nth_map)
    with i j show ?thesis by simp
  qed
  have s1: "schedule SJFScheduler h ready = Some (ready ! i)"
    using sel ready by simp
  have s2: "get_next_task ''SJF'' h ready = Some (ready ! i)"
    using sel ready by (simp add: get_next_task_def)
  from i s1 s2 le less arr show ?thesis by blast
qed

theorem sjf_selects_first_shortest_witness:
  "[0, 1, 2] \<noteq> ([]::ref list) \<and>
   schedule SJFScheduler scenario_heap [0, 1, 2] = Some 1 \<and>
   get_next_task ''SJF'' scenario_heap [0, 1, 2] = Some 1 \<and>
   schedule SJFScheduler late_first_heap [0, 1] = Some 0"
  using sjf_selects_first_shortest [of "[0, 1, 2]" scenario_heap]
  by (simp add: get_next_task_def scenario_heap_def late_first_heap_def heap_of_def new_Task_def)

text \<open>
  C2 as stated fails: of two tasks of the same duration, the one that arrived later is
  selected when it stands first in the list.
\<close>

theorem sjf_ignores_arrival_counterexample:
  "schedule SJFScheduler late_first_heap [0, 1] = Some 0 \<and>
   get_next_task ''SJF'' late_first_heap [0, 1] = Some 0 \<and>
   duration (late_first_heap 1) = duration (late_first_heap 0) \<and>
   arrival_time (late_first_heap 1) < arrival_time (late_first_heap 0)"
  by (simp add: get_next_task_def late_first_heap_def heap_of_def new_Task_def)

subsection \<open>Energy optimized\<close>

text \<open>
  C4. On a non-empty list, \<open>EnergyOptimizedScheduler.schedule\<close> returns a task whose key
  \<open>(cpu_requirement, priority rank, arrival_time)\<close> is least in the lexicographic order,
  with the ranks HIGH = 1, MEDIUM = 2, LOW = 3; it is the first such task of the list,
  every earlier task having a strictly greater key.
\<close>

theorem energy_optimized_selects_lex_minimum:
  assumes "ready \<noteq> []"
  shows "(\<exists>i<length ready.
     schedule EnergyOptimizedScheduler h ready = Some (ready ! i) \<and>
     (\<forall>j<length ready. energy_key_le (h (ready ! i)) (h (ready ! j))) \<and>
     (\<forall>j<i. energy_key_less (h (ready ! i)) (h (ready ! j)))) \<and>
   priority_value HIGH = 1 \<and> priority_value MEDIUM = 2 \<and> priority_value LOW = 3"
proof -
  let ?key = "\<lambda>r. (cpu_requirement (h r), priority_value (priority (h r)), arrival_time (h r))"
  obtain i where sel: "hd (sort_key ?key ready) = ready ! i"
    and fm: "first_minimum ?key ready i"
    using sort_key_selects [OF assms, of ?key] by blast
  have le: "?key a \<le> ?key b \<longleftrightarrow> energy_key_le (h a) (h b)" for a b
    by (auto simp: energy_key_le_def less_eq_prod_def less_prod_def)
  have less: "?key a < ?key b \<longleftrightarrow> energy_key_less (h a) (h b)" for a b
    by (auto simp: energy_key_less_def less_eq_prod_def less_prod_def)
  have "schedule EnergyOptimizedScheduler h ready = Some (ready ! i)"
    using sel assms by (cases ready) (simp_all add: Let_def)
  with fm have "\<exists>i<length ready.
     schedule EnergyOptimizedScheduler h ready = Some (ready ! i) \<and>
     (\<forall>j<length ready. energy_key_le (h (ready ! i)) (h (ready ! j))) \<and>
     (\<forall>j<i. energy_key_less (h (ready ! i)) (h (ready ! j)))"
    unfolding first_minimum_def le less by blast
  then show ?thesis by simp
qed

theorem energy_optimized_selects_lex_minimum_witness:
  "[0, 1, 2] \<noteq> ([]::ref list) \<and>
   schedule EnergyOptimizedScheduler scenario_heap [0, 1, 2] = Some 1 \<and>
   energy_key_le (scenario_heap 1) (scenario_heap 0) \<and>
   energy_key_le (scenario_heap 1) (scenario_heap 2)"
  using energy_optimized_selects_lex_minimum [of "[0, 1, 2]" scenario_heap]
  by (simp add: scenario_heap_def heap_of_def new_Task_def energy_key_le_def
      less_eq_prod_def less_prod_def)

text \<open>
  The queue's helper is another function: \<open>get_next_task('EnergyOptimized')\<close>, which the
  engine never calls, keys on \<open>cpu_requirement\<close> alone, so that among tasks of equal CPU
  requirement it takes the first of the list where the policy takes the one of higher
  priority.
\<close>

lemma queue_energy_key_is_cpu_alone:
  "get_next_task ''EnergyOptimized'' same_cpu_heap [0, 1] = Some 0 \<and>
   schedule EnergyOptimizedScheduler same_cpu_heap [0, 1] = Some 1"
  by (simp add: get_next_task_def same_cpu_heap_def heap_of_def new_Task_def
      less_eq_prod_def less_prod_def)

subsection \<open>Round robin\<close>

text \<open>
  C6. On every list, \<open>RoundRobinScheduler.schedule\<close> returns what \<open>FCFSScheduler.schedule\<close>
  returns: the task at position 0 of a non-empty list, \<open>None\<close> on the empty one, whatever
  the time quantum.
\<close>

theorem round_robin_is_fcfs:
  "schedule (RoundRobinScheduler time_quantum) h ready = schedule FCFSScheduler h ready \<and>
   schedule (RoundRobinScheduler time_quantum) h ready =
     (case ready of [] \<Rightarrow> None | t # ts \<Rightarrow> Some t)"
  by simp

subsection \<open>A name the queue does not know\<close>

text \<open>
  C5, as the code has it. For a name that is none of \<open>FCFS\<close>, \<open>SJF\<close>, \<open>PriorityBased\<close> and
  \<open>EnergyOptimized\<close> (so for every unregistered name, and for \<open>RoundRobin\<close>), and a
  non-empty list, \<open>get_next_task\<close> returns the task at position 0, which is what it
  returns for \<open>FCFS\<close>; it raises nothing.
\<close>

theorem unknown_name_defaults_to_first:
  assumes "policy_name \<notin> {''FCFS'', ''SJF'', ''PriorityBased'', ''EnergyOptimized''}"
    and "ready \<noteq> []"
  shows "get_next_task policy_name h ready = Some (hd ready) \<and>
     get_next_task policy_name h ready = get_next_task ''FCFS'' h ready"
  using assms by (cases ready) (simp_all add: get_next_task_def)

theorem unknown_name_defaults_to_first_witness:
  "''RoundRobin'' \<notin> {''FCFS'', ''SJF'', ''PriorityBased'', ''EnergyOptimized''} \<and>
   [2, 1, 0] \<noteq> ([]::ref list) \<and>
   get_next_task ''RoundRobin'' scenario_heap [2, 1, 0] = Some 2"
  using unknown_name_defaults_to_first [of "''RoundRobin''" "[2, 1, 0]" scenario_heap]
  by simp

text \<open>
  C5 as stated fails: the unregistered name \<open>Quantum\<close> is answered with a task, the one
  \<open>FCFS\<close> gives.
\<close>

theorem unknown_name_counterexample:
  "''Quantum'' \<notin> set ALGORITHMS \<and>
   get_next_task ''Quantum'' scenario_heap [0, 1, 2] = Some 0 \<and>
   get_next_task ''Quantum'' scenario_heap [0, 1, 2] =
     get_next_task ''FCFS'' scenario_heap [0, 1, 2]"
  by (simp add: get_next_task_def ALGORITHMS_def)

section \<open>The simulation loop\<close>

subsection \<open>What a selection removes\<close>

lemma schedule_nonempty:
  "xs \<noteq> [] \<Longrightarrow> \<exists>r. schedule c h xs = Some r"
  by (cases c; cases xs) (simp_all add: Let_def)

lemma first_minimum_0: "first_minimum key (t # ts) 0 \<longleftrightarrow> (\<forall>j<Suc (length ts). key t \<le> key ((t # ts) ! j))"
  by (simp add: first_minimum_def)

lemma schedule_first:
  assumes "schedule c h xs = Some r"
  shows "\<exists>i<length xs. xs ! i = r \<and>
     (\<forall>j<i. \<forall>a b. h (xs ! j) \<noteq> (h r)\<lparr>start_time := a, end_time := b\<rparr>)"
proof (cases xs)
  case Nil
  with assms show ?thesis by (cases c) simp_all
next
  case (Cons t ts)
  have key_case: ?thesis
    if sel: "r = xs ! i" and fm: "first_minimum key xs i"
      and inj: "\<And>x y a b. h x = (h y)\<lparr>start_time := a, end_time := b\<rparr> \<Longrightarrow> key x = key y"
    for key :: "ref \<Rightarrow> 'k::linorder" and i
  proof -
    have "h (xs ! j) \<noteq> (h r)\<lparr>start_time := a, end_time := b\<rparr>" if "j < i" for j a b
    proof
      assume "h (xs ! j) = (h r)\<lparr>start_time := a, end_time := b\<rparr>"
      then have "key (xs ! j) = key r" by (rule inj)
      moreover have "key (xs ! i) < key (xs ! j)"
        using fm that by (simp add: first_minimum_def)
      ultimately show False using sel by simp
    qed
    moreover have "i < length xs" using fm by (simp add: first_minimum_def)
    ultimately show ?thesis using sel by blast
  qed
  show ?thesis
  proof (cases c)
    case FCFSScheduler
    with assms Cons show ?thesis by (intro exI [of _ 0]) auto
  next
    case (RoundRobinScheduler q)
    with assms Cons show ?thesis by (intro exI [of _ 0]) auto
  next
    case SJFScheduler
    let ?key = "\<lambda>r. duration (h r)"
    obtain i where i: "min_loop ?key t ts = xs ! i" "first_minimum ?key xs i"
      using min_loop_selects [of ?key t ts] Cons by blast
    have r: "r = min_loop ?key t ts" using assms Cons SJFScheduler by simp
    show ?thesis
    proof (rule key_case [of i ?key])
      show "r = xs ! i" using r i(1) by (rule trans)
      show "first_minimum ?key xs i" by (rule i(2))
      show "?key x = ?key y" if "h x = (h y)\<lparr>start_time := a, end_time := b\<rparr>" for x y a b
        using that by simp
    qed
  next
    case PriorityScheduler
    let ?key = "\<lambda>r. (priority_value (priority (h r)), arrival_time (h r))"
    obtain i where i: "min_loop ?key t ts = xs ! i" "first_minimum ?key xs i"
      using min_loop_selects [of ?key t ts] Cons by blast
    have r: "r = min_loop ?key t ts" using assms Cons PriorityScheduler by simp
    show ?thesis
    proof (rule key_case [of i ?key])
      show "r = xs ! i" using r i(1) by (rule trans)
      show "first_minimum ?key xs i" by (rule i(2))
      show "?key x = ?key y" if "h x = (h y)\<lparr>start_time := a, end_time := b\<rparr>" for x y a b
        using that by simp
    qed
  next
    case EnergyOptimizedScheduler
    let ?key = "\<lambda>r. (cpu_requirement (h r), priority_value (priority (h r)), arrival_time (h r))"
    have "xs \<noteq> []" using Cons by simp
    then obtain i where i: "hd (sort_key ?key xs) = xs ! i" "first_minimum ?key xs i"
      using sort_key_selects [of xs ?key] by blast
    have r: "r = hd (sort_key ?key xs)"
      using assms Cons EnergyOptimizedScheduler by (simp add: Let_def)
    show ?thesis
    proof (rule key_case [of i ?key])
      show "r = xs ! i" using r i(1) by (rule trans)
      show "first_minimum ?key xs i" by (rule i(2))
      show "?key x = ?key y" if "h x = (h y)\<lparr>start_time := a, end_time := b\<rparr>" for x y a b
        using that by simp
    qed
  qed
qed

lemma schedule_member: "schedule c h xs = Some r \<Longrightarrow> r \<in> set xs"
  using schedule_first [of c h xs r] by auto

lemma list_remove_member:
  "r \<in> set xs \<Longrightarrow> \<exists>zs. list_remove h r xs = Some zs"
  by (induction xs) auto

lemma list_remove_subset:
  "list_remove h r xs = Some zs \<Longrightarrow> set zs \<subseteq> set xs"
  by (induction xs arbitrary: zs) (auto split: if_splits option.splits)

lemma list_remove_exact:
  "i < length xs \<Longrightarrow> xs ! i = r \<Longrightarrow> \<forall>j<i. h (xs ! j) \<noteq> h r \<Longrightarrow>
   list_remove h r xs = Some (remove1 r xs)"
proof (induction xs arbitrary: i)
  case Nil
  then show ?case by simp
next
  case (Cons y ys)
  show ?case
  proof (cases "y = r")
    case True
    then show ?thesis by simp
  next
    case False
    with Cons.prems obtain i' where i': "i = Suc i'" by (cases i) auto
    have "h y \<noteq> h r" using Cons.prems(3) i' by (auto dest: spec [of _ 0])
    moreover have "list_remove h r ys = Some (remove1 r ys)"
    proof (rule Cons.IH [of i'])
      show "i' < length ys" using Cons.prems(1) i' by simp
      show "ys ! i' = r" using Cons.prems(2) i' by simp
      show "\<forall>j<i'. h (ys ! j) \<noteq> h r"
      proof (intro allI impI)
        fix j assume "j < i'"
        then have "Suc j < i" using i' by simp
        with Cons.prems(3) have "h ((y # ys) ! Suc j) \<noteq> h r" by blast
        then show "h (ys ! j) \<noteq> h r" by simp
      qed
    qed
    ultimately show ?thesis using False by simp
  qed
qed

subsection \<open>One iteration, and what the loop writes\<close>

lemma execute_task_heap:
  "snd (execute_task s h r t w) =
     h(r := (h r)\<lparr>start_time := Some t, end_time := Some (t + duration (h r))\<rparr>)"
  by (simp add: execute_task_def Let_def)

lemma execute_task_executed:
  "executed_tasks (fst (execute_task s h r t w)) = executed_tasks s @ [r]"
  by (simp add: execute_task_def Let_def)

lemma loop_done:
  "remaining = [] \<or> \<not> t < SIMULATION_TIME \<Longrightarrow>
   simulation_loop clock s m h remaining t = Inr (s, m, h)"
  by (subst simulation_loop.simps) auto

lemma loop_exec:
  assumes "remaining \<noteq> []" and "t < SIMULATION_TIME"
    and "schedule (cls s) h remaining = Some r"
    and "list_remove (snd (execute_task s h r t (calculate_power_watts (cpu_requirement (h r)))))
           r remaining = Some remaining'"
  shows "simulation_loop clock s m h remaining t =
     simulation_loop clock
       (fst (execute_task s h r t (calculate_power_watts (cpu_requirement (h r)))))
       (record_reading m (clock (length (readings m))) (cpu_requirement (h r)) 30
          (calculate_power_watts (cpu_requirement (h r))))
       (snd (execute_task s h r t (calculate_power_watts (cpu_requirement (h r)))))
       remaining' (t + duration (h r))"
  using assms
  by (subst simulation_loop.simps) (simp add: Let_def case_prod_beta execute_task_heap)

lemma loop_writes_once:
  assumes "distinct remaining"
  shows "\<exists>s' m' h' new.
     simulation_loop clock s m h remaining t = Inr (s', m', h') \<and>
     executed_tasks s' = executed_tasks s @ new \<and> distinct new \<and>
     set new \<subseteq> set remaining \<and>
     (\<forall>r. r \<notin> set new \<longrightarrow> h' r = h r) \<and>
     (\<forall>r. h' r = (h r)\<lparr>start_time := start_time (h' r), end_time := end_time (h' r)\<rparr>)"
  using assms
proof (induction "length remaining" arbitrary: remaining s m h t rule: less_induct)
  case less
  show ?case
  proof (cases "remaining \<noteq> [] \<and> t < SIMULATION_TIME")
    case False
    then have "simulation_loop clock s m h remaining t = Inr (s, m, h)"
      by (intro loop_done) auto
    then show ?thesis by (intro exI [of _ s] exI [of _ m] exI [of _ h] exI [of _ "[]"]) simp
  next
    case True
    then obtain r where r: "schedule (cls s) h remaining = Some r"
      using schedule_nonempty by blast
    from schedule_first [OF r] obtain i where i: "i < length remaining" "remaining ! i = r"
      and before: "\<forall>j<i. \<forall>a b. h (remaining ! j) \<noteq> (h r)\<lparr>start_time := a, end_time := b\<rparr>"
      by blast
    define w where "w = calculate_power_watts (cpu_requirement (h r))"
    define s1 where "s1 = fst (execute_task s h r t w)"
    define h1 where "h1 = snd (execute_task s h r t w)"
    define m1 where "m1 = record_reading m (clock (length (readings m))) (cpu_requirement (h r)) 30 w"
    have h1: "h1 = h(r := (h r)\<lparr>start_time := Some t, end_time := Some (t + duration (h r))\<rparr>)"
      by (simp add: h1_def execute_task_heap)
    have "h1 (remaining ! j) \<noteq> h1 r" if "j < i" for j
    proof -
      have "remaining ! j \<noteq> r"
        using that i less.prems by (auto simp: nth_eq_iff_index_eq)
      then have "h1 (remaining ! j) = h (remaining ! j)" by (simp add: h1)
      moreover have "h1 r = (h r)\<lparr>start_time := Some t, end_time := Some (t + duration (h r))\<rparr>"
        by (simp add: h1)
      moreover have "h (remaining ! j) \<noteq>
          (h r)\<lparr>start_time := Some t, end_time := Some (t + duration (h r))\<rparr>"
        using before that by blast
      ultimately show ?thesis by metis
    qed
    then have "\<forall>j<i. h1 (remaining ! j) \<noteq> h1 r" by blast
    with i have rm: "list_remove h1 r remaining = Some (remove1 r remaining)"
      by (rule list_remove_exact)
    have step: "simulation_loop clock s m h remaining t =
        simulation_loop clock s1 m1 h1 (remove1 r remaining) (t + duration (h r))"
      unfolding s1_def h1_def m1_def w_def
      using True r rm [unfolded h1_def w_def] by (intro loop_exec) auto
    have mem: "r \<in> set remaining" using i by auto
    then have "0 < length remaining" by (rule length_pos_if_in_set)
    then have shorter: "length (remove1 r remaining) < length remaining"
      using mem by (simp add: length_remove1)
    have "distinct (remove1 r remaining)" using less.prems by simp
    from less.hyps [OF shorter this, of s1 m1 h1 "t + duration (h r)"]
    obtain s' m' h' new where res:
      "simulation_loop clock s1 m1 h1 (remove1 r remaining) (t + duration (h r)) = Inr (s', m', h')"
      and ex: "executed_tasks s' = executed_tasks s1 @ new"
      and dist: "distinct new"
      and sub: "set new \<subseteq> set (remove1 r remaining)"
      and frame: "\<forall>x. x \<notin> set new \<longrightarrow> h' x = h1 x"
      and fields: "\<forall>x. h' x = (h1 x)\<lparr>start_time := start_time (h' x), end_time := end_time (h' x)\<rparr>"
      by blast
    have notin: "r \<notin> set new" using sub less.prems by auto
    have a: "executed_tasks s' = executed_tasks s @ (r # new)"
      using ex by (simp add: s1_def execute_task_executed)
    have b: "distinct (r # new)" using dist notin by simp
    have c: "set (r # new) \<subseteq> set remaining"
      using sub mem less.prems by auto
    have d: "\<forall>x. x \<notin> set (r # new) \<longrightarrow> h' x = h x"
    proof (intro allI impI)
      fix x assume "x \<notin> set (r # new)"
      then have "x \<noteq> r" "x \<notin> set new" by simp_all
      then have "h' x = h1 x" using frame by blast
      also have "\<dots> = h x" using \<open>x \<noteq> r\<close> by (simp add: h1)
      finally show "h' x = h x" .
    qed
    have e: "h' x = (h x)\<lparr>start_time := start_time (h' x), end_time := end_time (h' x)\<rparr>" for x
    proof -
      have "h' x = (h1 x)\<lparr>start_time := start_time (h' x), end_time := end_time (h' x)\<rparr>"
        using fields by blast
      also have "\<dots> = (h x)\<lparr>start_time := start_time (h' x), end_time := end_time (h' x)\<rparr>"
        by (simp add: h1)
      finally show ?thesis .
    qed
    have f: "simulation_loop clock s m h remaining t = Inr (s', m', h')"
      using step res by (rule trans)
    have e': "\<forall>x. h' x = (h x)\<lparr>start_time := start_time (h' x), end_time := end_time (h' x)\<rparr>"
      using e by (rule allI)
    show ?thesis
      by (intro exI [of _ s'] exI [of _ m'] exI [of _ h'] exI [of _ "r # new"] conjI)
        (rule f a b c d e')+
  qed
qed

lemma distinct_nth_notin_drop:
  "distinct xs \<Longrightarrow> k < length xs \<Longrightarrow> xs ! k \<notin> set (drop (Suc k) xs)"
proof -
  assume d: "distinct xs" and k: "k < length xs"
  from k have "xs = take k xs @ xs ! k # drop (Suc k) xs" by (rule id_take_nth_drop)
  with d have "distinct (take k xs @ xs ! k # drop (Suc k) xs)" by simp
  then show ?thesis by simp
qed

lemma loop_times:
  "\<exists>s' m' h' new.
     simulation_loop clock s m h remaining t = Inr (s', m', h') \<and>
     executed_tasks s' = executed_tasks s @ new \<and>
     (\<forall>x. x \<notin> set new \<longrightarrow> h' x = h x) \<and>
     (\<forall>x. duration (h' x) = duration (h x) \<and> arrival_time (h' x) = arrival_time (h x)) \<and>
     (\<forall>k<length new. new ! k \<notin> set (drop (Suc k) new) \<longrightarrow>
        start_time (h' (new ! k)) = Some (t + time_cursor h new k) \<and>
        end_time (h' (new ! k)) = Some (t + time_cursor h new k + duration (h (new ! k))))"
proof (induction "length remaining" arbitrary: remaining s m h t rule: less_induct)
  case less
  show ?case
  proof (cases "remaining \<noteq> [] \<and> t < SIMULATION_TIME")
    case False
    then have "simulation_loop clock s m h remaining t = Inr (s, m, h)"
      by (intro loop_done) auto
    then show ?thesis by (intro exI [of _ s] exI [of _ m] exI [of _ h] exI [of _ "[]"]) simp
  next
    case True
    then obtain r where r: "schedule (cls s) h remaining = Some r"
      using schedule_nonempty by blast
    then have mem: "r \<in> set remaining" by (rule schedule_member)
    define w where "w = calculate_power_watts (cpu_requirement (h r))"
    define s1 where "s1 = fst (execute_task s h r t w)"
    define h1 where "h1 = snd (execute_task s h r t w)"
    define m1 where "m1 = record_reading m (clock (length (readings m))) (cpu_requirement (h r)) 30 w"
    have h1: "h1 = h(r := (h r)\<lparr>start_time := Some t, end_time := Some (t + duration (h r))\<rparr>)"
      by (simp add: h1_def execute_task_heap)
    obtain remaining' where rm: "list_remove h1 r remaining = Some remaining'"
      using list_remove_member [OF mem] by blast
    have step: "simulation_loop clock s m h remaining t =
        simulation_loop clock s1 m1 h1 remaining' (t + duration (h r))"
      unfolding s1_def h1_def m1_def w_def
      using True r rm [unfolded h1_def w_def] by (intro loop_exec) auto
    have shorter: "length remaining' < length remaining"
      using rm by (rule list_remove_shorter)
    have dur1: "duration (h1 x) = duration (h x)" for x by (simp add: h1)
    have arr1: "arrival_time (h1 x) = arrival_time (h x)" for x by (simp add: h1)
    have cur1: "time_cursor h1 xs k = time_cursor h xs k" for xs k
      by (simp add: time_cursor_def dur1)
    from less.hyps [OF shorter, of s1 m1 h1 "t + duration (h r)"]
    obtain s' m' h' new where res:
      "simulation_loop clock s1 m1 h1 remaining' (t + duration (h r)) = Inr (s', m', h')"
      and ex: "executed_tasks s' = executed_tasks s1 @ new"
      and frame: "\<forall>x. x \<notin> set new \<longrightarrow> h' x = h1 x"
      and stat: "\<forall>x. duration (h' x) = duration (h1 x) \<and> arrival_time (h' x) = arrival_time (h1 x)"
      and times: "\<forall>k<length new. new ! k \<notin> set (drop (Suc k) new) \<longrightarrow>
        start_time (h' (new ! k)) = Some (t + duration (h r) + time_cursor h1 new k) \<and>
        end_time (h' (new ! k)) =
          Some (t + duration (h r) + time_cursor h1 new k + duration (h1 (new ! k)))"
      by blast
    have f: "simulation_loop clock s m h remaining t = Inr (s', m', h')"
      using step res by (rule trans)
    have a: "executed_tasks s' = executed_tasks s @ (r # new)"
      using ex by (simp add: s1_def execute_task_executed)
    have b: "\<forall>x. x \<notin> set (r # new) \<longrightarrow> h' x = h x"
    proof (intro allI impI)
      fix x assume "x \<notin> set (r # new)"
      then have "x \<noteq> r" "x \<notin> set new" by simp_all
      then have "h' x = h1 x" using frame by blast
      also have "\<dots> = h x" using \<open>x \<noteq> r\<close> by (simp add: h1)
      finally show "h' x = h x" .
    qed
    have c: "\<forall>x. duration (h' x) = duration (h x) \<and> arrival_time (h' x) = arrival_time (h x)"
      using stat dur1 arr1 by simp
    have d: "\<forall>k<length (r # new). (r # new) ! k \<notin> set (drop (Suc k) (r # new)) \<longrightarrow>
        start_time (h' ((r # new) ! k)) = Some (t + time_cursor h (r # new) k) \<and>
        end_time (h' ((r # new) ! k)) =
          Some (t + time_cursor h (r # new) k + duration (h ((r # new) ! k)))"
    proof (intro allI impI)
      fix k
      assume k: "k < length (r # new)"
        and last: "(r # new) ! k \<notin> set (drop (Suc k) (r # new))"
      show "start_time (h' ((r # new) ! k)) = Some (t + time_cursor h (r # new) k) \<and>
        end_time (h' ((r # new) ! k)) =
          Some (t + time_cursor h (r # new) k + duration (h ((r # new) ! k)))"
      proof (cases k)
        case 0
        with last have "r \<notin> set new" by simp
        then have "h' r = h1 r" using frame by blast
        then show ?thesis using 0 by (simp add: h1 time_cursor_def)
      next
        case (Suc k')
        with k last have k': "k' < length new" "new ! k' \<notin> set (drop (Suc k') new)"
          by simp_all
        with times have
          "start_time (h' (new ! k')) = Some (t + duration (h r) + time_cursor h1 new k')"
          "end_time (h' (new ! k')) =
             Some (t + duration (h r) + time_cursor h1 new k' + duration (h1 (new ! k')))"
          by blast+
        moreover have "time_cursor h (r # new) (Suc k') = duration (h r) + time_cursor h new k'"
          by (simp add: time_cursor_def)
        ultimately show ?thesis using Suc by (simp add: cur1 dur1 add.assoc)
      qed
    qed
    show ?thesis
      by (intro exI [of _ s'] exI [of _ m'] exI [of _ h'] exI [of _ "r # new"] conjI)
        (rule f a b c d)+
  qed
qed

subsection \<open>Runs\<close>

lemmas eval_simps = run_simulation_for_algorithm_def initialize_schedulers_def Simulator_init_def
  SchedulingAlgorithm_init_def simulation_loop.simps SIMULATION_TIME_def execute_task_def
  Let_def scenario_heap_def late_first_heap_def heap_of_def new_Task_def EnergyMonitor_init_def
  record_reading_def calculate_power_watts_def BASE_POWER_WATTS_def MAX_POWER_WATTS_def
  get_metrics_def get_wait_time_def get_turnaround_time_def get_energy_consumption_def
  get_average_wait_time_def get_average_turnaround_time_def

text \<open>
  C1, as the code has it. A run works on its own list but on the Task objects of the batch
  it is given: the copy is shallow, and \<open>run_all_simulations\<close> gives every run the same
  objects. What holds of one run, started with a scheduler that has executed nothing, over
  a batch of distinct objects: it ends without an error; every object it executes is an
  object of the batch and is executed once; the run sets the \<open>start_time\<close> of the task
  at position \<open>k\<close> of its executed list to the time cursor, the sum of the durations of
  the tasks executed before it, and its \<open>end_time\<close> to that plus its own duration; an
  object it does not execute is left as it was, and of an executed object only
  \<open>start_time\<close> and \<open>end_time\<close> change.
\<close>

theorem run_writes_each_task_once:
  assumes "schedulers sim policy_name = Some s" and "executed_tasks s = []"
    and "distinct batch"
  shows "\<exists>m sim' h' s'.
     run_simulation_for_algorithm clock sim h policy_name batch = Inr (m, sim', h') \<and>
     schedulers sim' policy_name = Some s' \<and>
     distinct (executed_tasks s') \<and> set (executed_tasks s') \<subseteq> set batch \<and>
     (\<forall>k<length (executed_tasks s').
        start_time (h' (executed_tasks s' ! k)) = Some (time_cursor h (executed_tasks s') k) \<and>
        end_time (h' (executed_tasks s' ! k)) =
          Some (time_cursor h (executed_tasks s') k + duration (h (executed_tasks s' ! k)))) \<and>
     (\<forall>r. r \<notin> set (executed_tasks s') \<longrightarrow> h' r = h r) \<and>
     (\<forall>r. h' r = (h r)\<lparr>start_time := start_time (h' r), end_time := end_time (h' r)\<rparr>)"
proof -
  from loop_writes_once [OF assms(3), of clock s EnergyMonitor_init h 0]
  obtain s' m' h' new where
    loop: "simulation_loop clock s EnergyMonitor_init h batch 0 = Inr (s', m', h')"
    and ex: "executed_tasks s' = executed_tasks s @ new"
    and new: "distinct new" "set new \<subseteq> set batch"
    and frame: "\<forall>r. r \<notin> set new \<longrightarrow> h' r = h r"
    and fields: "\<forall>r. h' r = (h r)\<lparr>start_time := start_time (h' r), end_time := end_time (h' r)\<rparr>"
    by blast
  from loop_times [of clock s EnergyMonitor_init h batch 0]
  obtain s2 m2 h2 new2 where
    loop2: "simulation_loop clock s EnergyMonitor_init h batch 0 = Inr (s2, m2, h2)"
    and ex2: "executed_tasks s2 = executed_tasks s @ new2"
    and times2: "\<forall>k<length new2. new2 ! k \<notin> set (drop (Suc k) new2) \<longrightarrow>
        start_time (h2 (new2 ! k)) = Some (0 + time_cursor h new2 k) \<and>
        end_time (h2 (new2 ! k)) = Some (0 + time_cursor h new2 k + duration (h (new2 ! k)))"
    by blast
  have same: "s2 = s'" "h2 = h'" using loop loop2 by simp_all
  have eq: "executed_tasks s' = new" using ex assms(2) by simp
  have eq2: "new2 = new" using ex ex2 same by simp
  define sim' where "sim' = sim\<lparr>schedulers := (schedulers sim)(policy_name \<mapsto> s'),
                        monitors := (monitors sim)(policy_name \<mapsto> m')\<rparr>"
  have run: "run_simulation_for_algorithm clock sim h policy_name batch =
      Inr (get_metrics s', sim', h')"
    using assms(1) loop by (simp add: run_simulation_for_algorithm_def sim'_def)
  have look: "schedulers sim' policy_name = Some s'" by (simp add: sim'_def)
  have a: "distinct (executed_tasks s')" using new(1) eq by simp
  have b: "set (executed_tasks s') \<subseteq> set batch" using new(2) eq by simp
  have c: "\<forall>r. r \<notin> set (executed_tasks s') \<longrightarrow> h' r = h r" using frame eq by simp
  have t: "\<forall>k<length (executed_tasks s').
        start_time (h' (executed_tasks s' ! k)) = Some (time_cursor h (executed_tasks s') k) \<and>
        end_time (h' (executed_tasks s' ! k)) =
          Some (time_cursor h (executed_tasks s') k + duration (h (executed_tasks s' ! k)))"
  proof (intro allI impI)
    fix k assume "k < length (executed_tasks s')"
    then have k: "k < length new" using eq by simp
    with new(1) have "new ! k \<notin> set (drop (Suc k) new)" by (rule distinct_nth_notin_drop)
    with times2 k have
      "start_time (h' (new ! k)) = Some (0 + time_cursor h new k) \<and>
       end_time (h' (new ! k)) = Some (0 + time_cursor h new k + duration (h (new ! k)))"
      unfolding eq2 same by blast
    then show "start_time (h' (executed_tasks s' ! k)) = Some (time_cursor h (executed_tasks s') k) \<and>
        end_time (h' (executed_tasks s' ! k)) =
          Some (time_cursor h (executed_tasks s') k + duration (h (executed_tasks s' ! k)))"
      unfolding eq by simp
  qed
  show ?thesis
    by (intro exI [of _ "get_metrics s'"] exI [of _ sim'] exI [of _ h'] exI [of _ s'] conjI)
      (rule run look a b t c fields)+
qed

theorem run_writes_each_task_once_witness:
  "schedulers (initialize_schedulers Simulator_init) ''SJF'' =
     Some (SchedulingAlgorithm_init SJFScheduler ''SJF'') \<and>
   executed_tasks (SchedulingAlgorithm_init SJFScheduler ''SJF'') = [] \<and>
   distinct [0, 1, 2 :: ref] \<and>
   (case run_simulation_for_algorithm real (initialize_schedulers Simulator_init)
           scenario_heap ''SJF'' [0, 1, 2] of
      Inl e \<Rightarrow> False
    | Inr (m, sim', h') \<Rightarrow>
        map_option executed_tasks (schedulers sim' ''SJF'') = Some [1, 0, 2] \<and>
        start_time (h' 1) = Some 0 \<and> end_time (h' 1) = Some 1 \<and>
        start_time (h' 0) = Some 1 \<and> end_time (h' 0) = Some 3 \<and>
        start_time (h' 2) = Some 3 \<and> end_time (h' 2) = Some 6 \<and>
        h' 3 = scenario_heap 3)"
  using run_writes_each_task_once [of "initialize_schedulers Simulator_init" "''SJF''"
      "SchedulingAlgorithm_init SJFScheduler ''SJF''" "[0, 1, 2]" real scenario_heap]
  by (simp add: eval_simps)

text \<open>
  C1 as stated fails. Run after one another over the same batch, FCFS and SJF execute the
  same objects, and SJF overwrites the \<open>start_time\<close> FCFS wrote: object 0 started at 0 in
  the FCFS run and reads 1 after the SJF run. After \<open>run_all_simulations\<close> object 0, which
  the FCFS scheduler still lists among its executed tasks (its average wait, 5/3, was
  taken with object 0 started at 0), carries the \<open>start_time\<close> 4 of the last run.
\<close>

theorem runs_share_tasks_counterexample:
  "(case run_simulation_for_algorithm real (initialize_schedulers Simulator_init)
           scenario_heap ''FCFS'' [0, 1, 2] of
      Inl e \<Rightarrow> False
    | Inr (m1, sim1, h1) \<Rightarrow>
        (case run_simulation_for_algorithm real sim1 h1 ''SJF'' [0, 1, 2] of
           Inl e \<Rightarrow> False
         | Inr (m2, sim2, h2) \<Rightarrow>
             map_option executed_tasks (schedulers sim2 ''FCFS'') = Some [0, 1, 2] \<and>
             map_option executed_tasks (schedulers sim2 ''SJF'') = Some [1, 0, 2] \<and>
             start_time (h1 0) = Some 0 \<and> start_time (h2 0) = Some 1 \<and>
             start_time (h1 1) = Some 2 \<and> start_time (h2 1) = Some 0)) \<and>
   (case run_all_simulations (\<lambda>n. real) (Simulator_init\<lparr>tasks := [0, 1, 2]\<rparr>) scenario_heap of
      Inl e \<Rightarrow> False
    | Inr (res, sim', h') \<Rightarrow>
        map_option executed_tasks (schedulers sim' ''FCFS'') = Some [0, 1, 2] \<and>
        map_option executed_tasks (schedulers sim' ''EnergyOptimized'') = Some [1, 2, 0] \<and>
        map_option avg_wait_time (res ''FCFS'') = Some (5 / 3) \<and>
        start_time (h' 0) = Some 4)"
  by (simp add: eval_simps run_all_simulations_def ALGORITHMS_def TIME_QUANTUM_MS_def
      less_eq_prod_def less_prod_def)

text \<open>
  C3, as the code has it. The engine sets the \<open>start_time\<close> of a task to its time cursor
  and never compares it with \<open>arrival_time\<close>. In every run started with a scheduler
  that has executed nothing, the task at position \<open>k\<close> of the executed list ends with
  the \<open>start_time\<close> that is the sum of the durations of the tasks executed before it
  (0 for the first), so that its \<open>start_time\<close> is at least its \<open>arrival_time\<close> exactly
  when it arrived no later than that sum. (Position \<open>k\<close> is the last one the object
  has in the list; in a batch of distinct objects every position is.)
\<close>

theorem start_time_is_time_cursor:
  assumes "schedulers sim policy_name = Some s" and "executed_tasks s = []"
  shows "\<exists>m sim' h' s'.
     run_simulation_for_algorithm clock sim h policy_name batch = Inr (m, sim', h') \<and>
     schedulers sim' policy_name = Some s' \<and>
     (\<forall>k<length (executed_tasks s').
        executed_tasks s' ! k \<notin> set (drop (Suc k) (executed_tasks s')) \<longrightarrow>
        (\<exists>st. start_time (h' (executed_tasks s' ! k)) = Some st \<and>
           st = time_cursor h (executed_tasks s') k \<and>
           (arrival_time (h' (executed_tasks s' ! k)) \<le> st \<longleftrightarrow>
            arrival_time (h (executed_tasks s' ! k)) \<le> time_cursor h (executed_tasks s') k)))"
proof -
  from loop_times [of clock s EnergyMonitor_init h batch 0]
  obtain s' m' h' new where
    loop: "simulation_loop clock s EnergyMonitor_init h batch 0 = Inr (s', m', h')"
    and ex: "executed_tasks s' = executed_tasks s @ new"
    and stat: "\<forall>x. duration (h' x) = duration (h x) \<and> arrival_time (h' x) = arrival_time (h x)"
    and times: "\<forall>k<length new. new ! k \<notin> set (drop (Suc k) new) \<longrightarrow>
        start_time (h' (new ! k)) = Some (0 + time_cursor h new k) \<and>
        end_time (h' (new ! k)) = Some (0 + time_cursor h new k + duration (h (new ! k)))"
    by blast
  have eq: "executed_tasks s' = new" using ex assms(2) by simp
  define sim' where "sim' = sim\<lparr>schedulers := (schedulers sim)(policy_name \<mapsto> s'),
                        monitors := (monitors sim)(policy_name \<mapsto> m')\<rparr>"
  have run: "run_simulation_for_algorithm clock sim h policy_name batch =
      Inr (get_metrics s', sim', h')"
    using assms(1) loop by (simp add: run_simulation_for_algorithm_def sim'_def)
  have look: "schedulers sim' policy_name = Some s'" by (simp add: sim'_def)
  have t: "\<forall>k<length (executed_tasks s').
        executed_tasks s' ! k \<notin> set (drop (Suc k) (executed_tasks s')) \<longrightarrow>
        (\<exists>st. start_time (h' (executed_tasks s' ! k)) = Some st \<and>
           st = time_cursor h (executed_tasks s') k \<and>
           (arrival_time (h' (executed_tasks s' ! k)) \<le> st \<longleftrightarrow>
            arrival_time (h (executed_tasks s' ! k)) \<le> time_cursor h (executed_tasks s') k))"
    unfolding eq using times stat by simp
  show ?thesis
    by (intro exI [of _ "get_metrics s'"] exI [of _ sim'] exI [of _ h'] exI [of _ s'] conjI)
      (rule run look t)+
qed

theorem start_time_is_time_cursor_witness:
  "schedulers (initialize_schedulers Simulator_init) ''FCFS'' =
     Some (SchedulingAlgorithm_init FCFSScheduler ''FCFS'') \<and>
   executed_tasks (SchedulingAlgorithm_init FCFSScheduler ''FCFS'') = [] \<and>
   (case run_simulation_for_algorithm real (initialize_schedulers Simulator_init)
           staggered_heap ''FCFS'' [0, 1, 2] of
      Inl e \<Rightarrow> False
    | Inr (m, sim', h') \<Rightarrow>
        map_option executed_tasks (schedulers sim' ''FCFS'') = Some [0, 1, 2] \<and>
        start_time (h' 0) = Some 0 \<and> arrival_time (h' 0) = 0 \<and>
        start_time (h' 1) = Some 2 \<and> arrival_time (h' 1) = 1 \<and>
        start_time (h' 2) = Some 4 \<and> arrival_time (h' 2) = 3 \<and>
        time_cursor staggered_heap [0, 1, 2] 2 = 4)"
  using start_time_is_time_cursor [of "initialize_schedulers Simulator_init" "''FCFS''"
      "SchedulingAlgorithm_init FCFSScheduler ''FCFS''" real staggered_heap "[0, 1, 2]"]
  by (simp add: eval_simps staggered_heap_def time_cursor_def)

text \<open>
  C3 as stated fails: a task that arrives at second 5 and stands first in the list is
  started by FCFS at second 0.
\<close>

theorem arrival_not_gated_counterexample:
  "(case run_simulation_for_algorithm real (initialize_schedulers Simulator_init)
           late_first_heap ''FCFS'' [0, 1] of
      Inl e \<Rightarrow> False
    | Inr (m, sim', h') \<Rightarrow>
        map_option executed_tasks (schedulers sim' ''FCFS'') = Some [0, 1] \<and>
        start_time (h' 0) = Some 0 \<and> arrival_time (h' 0) = 5)"
  by (simp add: eval_simps)

text \<open>
  C9. For each of the five registered policies, a run over the empty batch ends at once,
  with no error and the store untouched, and its metrics are: no task executed, total
  energy 0, average wait 0, average turnaround 0 (and CO2 0). The averages come from the
  guard on the empty list of executed tasks, not from a division.
\<close>

theorem empty_batch_metrics:
  assumes "policy_name \<in> set ALGORITHMS"
  shows "\<exists>sim'.
     run_simulation_for_algorithm clock (initialize_schedulers sim) h policy_name [] =
       Inr (\<lparr>algorithm = policy_name, total_energy_kwh = 0, tasks_executed = 0,
             avg_wait_time = 0, avg_turnaround_time = 0, co2_emissions_kg = 0\<rparr>, sim', h)"
proof -
  obtain c where look: "schedulers (initialize_schedulers sim) policy_name =
      Some (SchedulingAlgorithm_init c policy_name)"
    using assms by (auto simp: ALGORITHMS_def initialize_schedulers_def)
  have loop: "simulation_loop clock (SchedulingAlgorithm_init c policy_name) EnergyMonitor_init h [] 0 =
      Inr (SchedulingAlgorithm_init c policy_name, EnergyMonitor_init, h)"
    by (rule loop_done) simp
  have "get_metrics (SchedulingAlgorithm_init c policy_name) =
      \<lparr>algorithm = policy_name, total_energy_kwh = 0, tasks_executed = 0,
       avg_wait_time = 0, avg_turnaround_time = 0, co2_emissions_kg = 0\<rparr>"
    by (simp add: get_metrics_def SchedulingAlgorithm_init_def get_average_wait_time_def
        get_average_turnaround_time_def)
  with look loop show ?thesis
    by (simp add: run_simulation_for_algorithm_def)
qed

theorem empty_batch_metrics_witness:
  "''PriorityBased'' \<in> set ALGORITHMS \<and>
   (case run_simulation_for_algorithm real (initialize_schedulers Simulator_init)
           scenario_heap ''PriorityBased'' [] of
      Inl e \<Rightarrow> False
    | Inr (m, sim', h') \<Rightarrow>
        tasks_executed m = 0 \<and> total_energy_kwh m = 0 \<and> avg_wait_time m = 0 \<and>
        avg_turnaround_time m = 0)"
  using empty_batch_metrics [of "''PriorityBased''" real Simulator_init scenario_heap]
  by (auto simp: ALGORITHMS_def)

end
